theory Spec2Isabelle
  imports Main "HOL-Library.AList"
begin

section \<open>JavaScript values used by the monitor\<close>

text \<open>
  A JavaScript number is modelled as an integer or \<open>NaN\<close>. Every number the monitor
  computes with is a millisecond timestamp (\<open>Date.now()\<close>, \<open>getTime()\<close>), a minute count
  read by \<open>parseInt\<close>, or a product or difference of those: integers far below \<open>2^53\<close>,
  on which double arithmetic is exact. \<open>NaN\<close> is what \<open>getTime()\<close> gives for an invalid
  date and what \<open>parseInt\<close> gives for a string without digits; arithmetic on it gives
  \<open>NaN\<close> and every comparison with it is false.
\<close>

datatype num = NaN | Num int

fun num_sub :: "num \<Rightarrow> num \<Rightarrow> num" where
  "num_sub (Num a) (Num b) = Num (a - b)"
| "num_sub _ _ = NaN"

fun num_mul :: "num \<Rightarrow> num \<Rightarrow> num" where
  "num_mul (Num a) (Num b) = Num (a * b)"
| "num_mul _ _ = NaN"

fun num_ge :: "num \<Rightarrow> num \<Rightarrow> bool" where
  "num_ge (Num a) (Num b) = (a \<ge> b)"
| "num_ge _ _ = False"

fun num_le :: "num \<Rightarrow> num \<Rightarrow> bool" where
  "num_le (Num a) (Num b) = (a \<le> b)"
| "num_le _ _ = False"

fun num_lt :: "num \<Rightarrow> num \<Rightarrow> bool" where
  "num_lt (Num a) (Num b) = (a < b)"
| "num_lt _ _ = False"

text \<open>
  A property that may be absent is a \<open>string option\<close>: \<open>None\<close> is \<open>undefined\<close> (or
  \<open>null\<close>). \<open>truthy\<close> is JavaScript's truthiness of such a value, as tested by \<open>!x\<close>
  and \<open>x || y\<close>: absent and the empty string are falsy.
\<close>

fun truthy :: "string option \<Rightarrow> bool" where
  "truthy None = False"
| "truthy (Some s) = (s \<noteq> [])"

definition js_or :: "string option \<Rightarrow> string option \<Rightarrow> string option" where
  "js_or a b = (if truthy a then a else b)"

section \<open>Posts\<close>

text \<open>
  The post object built by \<open>RssService.fetchFeed\<close> and extended by the spreads in
  \<open>monitorFeeds\<close> (\<open>fullContent\<close>) and \<open>OpenAIService.analyzeAllPosts\<close>
  (\<open>shouldReply\<close>, \<open>aiReply\<close>, \<open>skipReason\<close>). The field \<open>id\<close> of the source is
  \<open>post_id\<close> here. \<open>shouldReply = None\<close> is a post that was never analysed.
\<close>

record post =
  post_id :: "string option"
  title :: "string option"
  link :: "string option"
  pubDate :: "string option"
  subreddit :: string
  content :: "string option"
  contentSnippet :: "string option"
  fullContent :: "string option"
  shouldReply :: "bool option"
  aiReply :: "string option"
  skipReason :: "string option"

section \<open>dateUtils.js\<close>

text \<open>
  \<open>isWithinTimeWindow(postDate, minutes)\<close>. The two built-ins it reads are parameters:
  \<open>now\<close> is the value of \<open>Date.now()\<close> and \<open>getTime d\<close> is
  \<open>new Date(d).getTime()\<close>, which is \<open>NaN\<close> for a string that is not a date.
\<close>

definition isWithinTimeWindow :: "(string option \<Rightarrow> num) \<Rightarrow> int \<Rightarrow> string option \<Rightarrow> num \<Rightarrow> bool" where
  "isWithinTimeWindow getTime now postDate minutes =
     (let postTime = getTime postDate;
          timeWindowMs = num_mul (num_mul minutes (Num 60)) (Num 1000);
          age = num_sub (Num now) postTime
      in num_ge age (Num 0) \<and> num_le age timeWindowMs)"

section \<open>postTracker.js\<close>

text \<open>
  \<open>seenPosts\<close> is a JavaScript \<open>Map\<close> from post id to the time it was marked: an
  association list in insertion order whose keys are distinct. \<open>Map.set\<close> is
  \<open>AList.update\<close> (overwrite in place, or append), \<open>Map.delete\<close> is \<open>AList.delete\<close>,
  \<open>Map.has\<close> is \<open>Map_has\<close> and \<open>Map.size\<close> is the length. The calls the tracker makes
  to its logger are kept, in order, in \<open>logged\<close>.
\<close>

datatype log_msg =
    InvalidPostObject post
  | NewPostDetected "string option"
  | PostMarkedAsSeen "string option" nat
  | CleanedUpOldPosts nat nat

datatype log_call = LogError log_msg | LogInfo log_msg | LogDebug log_msg

type_synonym seen_map = "(string option \<times> int) list"

record PostTracker =
  seenPosts :: seen_map
  logged :: "log_call list"

definition newPostTracker :: PostTracker where
  "newPostTracker = \<lparr>seenPosts = [], logged = []\<rparr>"

definition MAX_AGE_MS :: int where
  "MAX_AGE_MS = 60 * 60 * 1000"

definition Map_has :: "seen_map \<Rightarrow> string option \<Rightarrow> bool" where
  "Map_has m k = (k \<in> set (map fst m))"

definition logger_call :: "log_call \<Rightarrow> PostTracker \<Rightarrow> PostTracker" where
  "logger_call c tr = tr\<lparr>logged := logged tr @ [c]\<rparr>"

definition isNewPost :: "(string option \<Rightarrow> num) \<Rightarrow> int \<Rightarrow> PostTracker \<Rightarrow> post \<Rightarrow> num \<Rightarrow> bool \<times> PostTracker" where
  "isNewPost getTime now tr p timeWindowMinutes =
     (if \<not> truthy (post_id p) \<or> \<not> truthy (pubDate p)
      then (False, logger_call (LogError (InvalidPostObject p)) tr)
      else
        let isRecent = isWithinTimeWindow getTime now (pubDate p) timeWindowMinutes;
            notSeen = \<not> Map_has (seenPosts tr) (post_id p)
        in if isRecent \<and> notSeen
           then (True, logger_call (LogDebug (NewPostDetected (post_id p))) tr)
           else (False, tr))"

definition markAsSeen :: "int \<Rightarrow> PostTracker \<Rightarrow> string option \<Rightarrow> PostTracker" where
  "markAsSeen now tr postId =
     (let m = AList.update postId now (seenPosts tr)
      in logger_call (LogDebug (PostMarkedAsSeen postId (length m))) (tr\<lparr>seenPosts := m\<rparr>))"

text \<open>
  The \<open>for ... of this.seenPosts.entries()\<close> loop of \<open>cleanup\<close>: the entries still to
  visit, the map as deleted from so far, and \<open>removedCount\<close>.
\<close>

fun cleanup_loop :: "int \<Rightarrow> seen_map \<Rightarrow> seen_map \<Rightarrow> nat \<Rightarrow> seen_map \<times> nat" where
  "cleanup_loop now [] m removedCount = (m, removedCount)"
| "cleanup_loop now ((postId, timestamp) # es) m removedCount =
     (if now - timestamp > MAX_AGE_MS
      then cleanup_loop now es (AList.delete postId m) (Suc removedCount)
      else cleanup_loop now es m removedCount)"

definition cleanup :: "int \<Rightarrow> PostTracker \<Rightarrow> PostTracker" where
  "cleanup now tr =
     (let (m, removedCount) = cleanup_loop now (seenPosts tr) (seenPosts tr) 0;
          tr' = tr\<lparr>seenPosts := m\<rparr>
      in if removedCount > 0
         then logger_call (LogInfo (CleanedUpOldPosts removedCount (length m))) tr'
         else tr')"

definition getTrackedCount :: "PostTracker \<Rightarrow> nat" where
  "getTrackedCount tr = length (seenPosts tr)"

text \<open>
  The calls a client can make on a tracker, each with the value \<open>Date.now()\<close> has
  when it runs, and the tracker after one call. \<open>evicts c tr postId\<close> says that the
  call \<open>c\<close>, made on \<open>tr\<close>, is a cleanup that deletes the record of \<open>postId\<close>;
  \<open>evicted\<close> says that some call of a sequence does.
\<close>

datatype tracker_call =
    CallIsNewPost int post num
  | CallMarkAsSeen int "string option"
  | CallCleanup int

fun tracker_step :: "(string option \<Rightarrow> num) \<Rightarrow> PostTracker \<Rightarrow> tracker_call \<Rightarrow> PostTracker" where
  "tracker_step getTime tr (CallIsNewPost now p w) = snd (isNewPost getTime now tr p w)"
| "tracker_step getTime tr (CallMarkAsSeen now postId) = markAsSeen now tr postId"
| "tracker_step getTime tr (CallCleanup now) = cleanup now tr"

fun evicts :: "tracker_call \<Rightarrow> PostTracker \<Rightarrow> string option \<Rightarrow> bool" where
  "evicts (CallCleanup now) tr postId =
     (case map_of (seenPosts tr) postId of
        Some timestamp \<Rightarrow> now - timestamp > MAX_AGE_MS
      | None \<Rightarrow> False)"
| "evicts _ tr postId = False"

fun evicted :: "(string option \<Rightarrow> num) \<Rightarrow> PostTracker \<Rightarrow> tracker_call list \<Rightarrow> string option \<Rightarrow> bool" where
  "evicted getTime tr [] postId = False"
| "evicted getTime tr (c # cs) postId =
     (evicts c tr postId \<or> evicted getTime (tracker_step getTime tr c) cs postId)"

section \<open>Strings\<close>

text \<open>
  A JavaScript string is a \<open>string\<close>, one \<open>char\<close> for each code unit below 256.
  \<open>isWhiteSpace\<close> is the white space and line terminator class of \<open>trim\<close>, of
  \<open>parseInt\<close> and of the regular expression class \<open>\s\<close>, on those code units: tab,
  line feed, vertical tab, form feed, carriage return, space and no-break space.
\<close>

definition isWhiteSpace :: "char \<Rightarrow> bool" where
  "isWhiteSpace c = (of_char c \<in> {9, 10, 11, 12, 13, 32, 160 :: nat})"

definition trim :: "string \<Rightarrow> string" where
  "trim s = rev (dropWhile isWhiteSpace (rev (dropWhile isWhiteSpace s)))"

definition endsWith :: "string \<Rightarrow> string \<Rightarrow> bool" where
  "endsWith s suffix = (length suffix \<le> length s \<and> drop (length s - length suffix) s = suffix)"

section \<open>rssService.js\<close>

text \<open>
  An item of a parsed feed, as \<open>rss-parser\<close> delivers it, and the result object of
  \<open>fetchFeed\<close>. \<open>parseURL\<close> is the parser's call: \<open>Inr items\<close> when it resolves to a
  feed with these items, \<open>Inl message\<close> when anything inside the \<open>try\<close> throws. The
  logger calls of the services are console output only and are left out. Of the two
  versions of the service in the repository, this is the one \<open>index.js\<close> calls (it
  has \<open>fetchFullPostContent\<close> and the content fields); \<open>fetchFeed\<close>'s handling of a
  failure and \<open>getAllPosts\<close> are the same in both.
\<close>

record feed_item =
  item_id :: "string option"
  item_guid :: "string option"
  item_title :: "string option"
  item_link :: "string option"
  item_pubDate :: "string option"
  item_isoDate :: "string option"
  item_content :: "string option"
  item_contentSnippet :: "string option"

record feed_result =
  success :: bool
  result_subreddit :: string
  error :: "string option"
  posts :: "post list"

definition feed_url :: "string \<Rightarrow> string" where
  "feed_url sub = ''https://www.reddit.com/r/'' @ sub @ ''/.rss''"

definition item_to_post :: "string \<Rightarrow> feed_item \<Rightarrow> post" where
  "item_to_post sub item =
     \<lparr>post_id = js_or (item_id item) (item_guid item),
      title = item_title item,
      link = item_link item,
      pubDate = js_or (item_pubDate item) (item_isoDate item),
      subreddit = sub,
      content = item_content item,
      contentSnippet = item_contentSnippet item,
      fullContent = None, shouldReply = None, aiReply = None, skipReason = None\<rparr>"

definition fetchFeed :: "(string \<Rightarrow> string + feed_item list) \<Rightarrow> string \<Rightarrow> feed_result" where
  "fetchFeed parseURL sub =
     (case parseURL (feed_url sub) of
        Inr items \<Rightarrow>
          \<lparr>success = True, result_subreddit = sub, error = None,
           posts = map (item_to_post sub) items\<rparr>
      | Inl message \<Rightarrow>
          \<lparr>success = False, result_subreddit = sub, error = Some message, posts = []\<rparr>)"

definition fetchMultipleFeeds :: "(string \<Rightarrow> string + feed_item list) \<Rightarrow> string list \<Rightarrow> feed_result list" where
  "fetchMultipleFeeds parseURL subreddits = map (fetchFeed parseURL) subreddits"

definition getAllPosts :: "feed_result list \<Rightarrow> post list" where
  "getAllPosts feedResults = concat (map posts (filter success feedResults))"

text \<open>
  \<open>fetchFullPostContent\<close>: what the \<open>fetch\<close> of the post's JSON comes to is a
  parameter. The result \<open>None\<close> is the \<open>null\<close> of the source; a post URL that is
  absent makes \<open>postUrl.endsWith\<close> throw inside the \<open>try\<close>, which also returns \<open>null\<close>.
\<close>

datatype fetch_outcome =
    FetchThrows
  | ResponseNotOk
  | InvalidStructure
  | PostData "string option"

definition fetchFullPostContent :: "(string \<Rightarrow> fetch_outcome) \<Rightarrow> string option \<Rightarrow> string option" where
  "fetchFullPostContent fetchJson postUrl =
     (case postUrl of
        None \<Rightarrow> None
      | Some url \<Rightarrow>
          (let jsonUrl = (if endsWith url ''.json'' then url else url @ ''.json'')
           in case fetchJson jsonUrl of
                FetchThrows \<Rightarrow> None
              | ResponseNotOk \<Rightarrow> None
              | InvalidStructure \<Rightarrow> None
              | PostData selftext \<Rightarrow> js_or selftext (Some [])))"

section \<open>openaiService.js\<close>

text \<open>
  \<open>createCompletion\<close> is the call \<open>client.chat.completions.create\<close> for the prompt of
  a post: it throws (\<open>ApiThrows\<close>, with the error's status) or gives the content of the
  first choice, absent when there is none. \<open>JSON_parse\<close> is \<open>JSON.parse\<close> followed by
  the three property reads: \<open>None\<close> when that throws, and else whether \<open>should_reply\<close>
  is \<open>true\<close>, the \<open>reply\<close> and the \<open>reason\<close>.
\<close>

datatype completion = ApiThrows "nat option" | Content "string option"

record ai_json =
  should_reply :: bool
  reply :: "string option"
  reason :: "string option"

record ai_result =
  result_shouldReply :: bool
  result_reply :: "string option"
  result_reason :: "string option"

record ai_service =
  enabled :: bool
  createCompletion :: "post \<Rightarrow> completion"
  JSON_parse :: "string \<Rightarrow> ai_json option"

text \<open>The body of \<open>generateReply\<close> after the \<open>enabled\<close> test.\<close>

definition generateReply_body :: "ai_service \<Rightarrow> post \<Rightarrow> ai_result" where
  "generateReply_body ai p =
     (case createCompletion ai p of
        ApiThrows status \<Rightarrow>
          \<lparr>result_shouldReply = False, result_reply = None, result_reason = Some ''OpenAI API error''\<rparr>
      | Content c \<Rightarrow>
          (let responseText = map_option trim c
           in if \<not> truthy responseText
              then \<lparr>result_shouldReply = False, result_reply = None,
                    result_reason = Some ''No response from AI''\<rparr>
              else
                (case JSON_parse ai (case responseText of Some s \<Rightarrow> s | None \<Rightarrow> []) of
                   None \<Rightarrow>
                     \<lparr>result_shouldReply = False, result_reply = None,
                      result_reason = Some ''AI response error''\<rparr>
                 | Some response \<Rightarrow>
                     \<lparr>result_shouldReply = should_reply response,
                      result_reply = js_or (reply response) None,
                      result_reason = js_or (reason response) (Some ''Not relevant'')\<rparr>)))"

definition generateReply :: "ai_service \<Rightarrow> post \<Rightarrow> ai_result option" where
  "generateReply ai p = (if \<not> enabled ai then None else Some (generateReply_body ai p))"

text \<open>
  \<open>analyzeAllPosts\<close> calls \<open>generateReply\<close> only past its own \<open>enabled\<close> test, where
  the result is that of \<open>generateReply_body\<close>.
\<close>

definition analyzePost :: "ai_service \<Rightarrow> post \<Rightarrow> post" where
  "analyzePost ai p =
     (let result = generateReply_body ai p
      in p\<lparr>shouldReply := Some (result_shouldReply result),
           aiReply := result_reply result,
           skipReason := (if result_shouldReply result then None else result_reason result)\<rparr>)"

definition analyzeAllPosts :: "ai_service \<Rightarrow> post list \<Rightarrow> post list" where
  "analyzeAllPosts ai ps = (if \<not> enabled ai \<or> ps = [] then ps else map (analyzePost ai) ps)"

definition isEnabled :: "ai_service \<Rightarrow> bool" where
  "isEnabled ai = enabled ai"

section \<open>emailService.js\<close>

text \<open>
  The text of the email is kept as its entries, one for each post \<open>formatEmailBody\<close>
  is given: the number, subreddit, title and link, and what follows them, which is the
  \<open>AI Decision: SKIP\<close> block with its reason, the \<open>AI Suggested Reply\<close> block, or
  nothing. The header and the footer are fixed by the number of entries.
\<close>

datatype entry_note = NoNote | SkipNote "string option" | ReplyNote "string option"

record body_entry =
  entry_number :: nat
  entry_subreddit :: string
  entry_title :: "string option"
  entry_link :: "string option"
  entry_note :: entry_note

definition formatEntry :: "nat \<times> post \<Rightarrow> body_entry" where
  "formatEntry ip =
     (case ip of (index, p) \<Rightarrow>
        \<lparr>entry_number = index + 1,
         entry_subreddit = subreddit p,
         entry_title = title p,
         entry_link = link p,
         entry_note =
           (if shouldReply p = Some False then SkipNote (js_or (skipReason p) (Some ''Not relevant''))
            else if truthy (aiReply p) then ReplyNote (aiReply p)
            else NoNote)\<rparr>)"

definition formatEmailBody :: "post list \<Rightarrow> body_entry list" where
  "formatEmailBody ps = map formatEntry (zip [0..<length ps] ps)"

text \<open>
  \<open>sendNotification\<close>: \<open>mailerSend\<close> is the provider's \<open>email.send\<close> on the text, true
  when it resolves and false when it throws. The result is the boolean returned and the
  text handed to the provider, \<open>None\<close> when \<open>send\<close> was not called. The argument \<open>None\<close>
  is a \<open>null\<close> list of posts. Sender, recipient and subject are left out.
\<close>

definition sendNotification :: "(body_entry list \<Rightarrow> bool) \<Rightarrow> post list option \<Rightarrow> bool \<times> body_entry list option" where
  "sendNotification mailerSend ps_opt =
     (case ps_opt of
        None \<Rightarrow> (False, None)
      | Some ps \<Rightarrow>
          if ps = [] then (False, None)
          else
            (let postsToEmail = filter (\<lambda>p. shouldReply p \<noteq> Some False) ps
             in if postsToEmail = [] then (False, None)
                else
                  (let emailBody = formatEmailBody postsToEmail
                   in if mailerSend emailBody then (True, Some emailBody)
                      else (False, Some emailBody))))"

section \<open>config/env.js\<close>

text \<open>
  \<open>process.env\<close> is a map from variable names to strings. A thrown \<open>Error(message)\<close>
  is \<open>Inl message\<close>. \<open>parseInt\<close> is \<open>parseInt(s, 10)\<close>: leading white space, an optional
  sign, then the longest run of decimal digits, \<open>NaN\<close> when there is none.
\<close>

definition requireEnv :: "(string \<rightharpoonup> string) \<Rightarrow> string \<Rightarrow> string + string" where
  "requireEnv env varName =
     (case env varName of
        None \<Rightarrow> Inl (''Missing required environment variable: '' @ varName)
      | Some v \<Rightarrow>
          if v = [] then Inl (''Missing required environment variable: '' @ varName)
          else Inr v)"

definition getEnv :: "(string \<rightharpoonup> string) \<Rightarrow> string \<Rightarrow> string \<Rightarrow> string" where
  "getEnv env varName defaultValue =
     (case env varName of
        None \<Rightarrow> defaultValue
      | Some v \<Rightarrow> if v = [] then defaultValue else v)"

text \<open>
  \<open>isValidEmail\<close> tests the regular expression \<open>^[^\s@]+@[^\s@]+\.[^\s@]+$\<close>: the string
  splits at an \<open>@\<close> (position \<open>i\<close>) and a later dot (position \<open>j\<close>) into three
  non-empty parts without white space and without \<open>@\<close>.
\<close>

definition emailChar :: "char \<Rightarrow> bool" where
  "emailChar c = (\<not> isWhiteSpace c \<and> c \<noteq> CHR ''@'')"

definition isValidEmail :: "string \<Rightarrow> bool" where
  "isValidEmail email =
     list_ex (\<lambda>i. list_ex (\<lambda>j.
         email ! i = CHR ''@'' \<and> email ! j = CHR ''.''
         \<and> 0 < i \<and> i + 1 < j \<and> j + 1 < length email
         \<and> list_all emailChar (take i email)
         \<and> list_all emailChar (take (j - (i + 1)) (drop (i + 1) email))
         \<and> list_all emailChar (drop (j + 1) email))
       [0..<length email]) [0..<length email]"

definition isDigit :: "char \<Rightarrow> bool" where
  "isDigit c = (48 \<le> (of_char c :: nat) \<and> (of_char c :: nat) \<le> 57)"

definition digitsValue :: "string \<Rightarrow> int" where
  "digitsValue ds = foldl (\<lambda>acc c. acc * 10 + (int (of_char c) - 48)) 0 ds"

definition parseInt :: "string \<Rightarrow> num" where
  "parseInt s =
     (let s1 = dropWhile isWhiteSpace s;
          negative = (s1 \<noteq> [] \<and> hd s1 = CHR ''-'');
          s2 = (if s1 \<noteq> [] \<and> (hd s1 = CHR ''-'' \<or> hd s1 = CHR ''+'') then tl s1 else s1);
          ds = takeWhile isDigit s2
      in if ds = [] then NaN
         else Num (if negative then - digitsValue ds else digitsValue ds))"

text \<open>\<open>s.split(',')\<close>: the pieces between the separators, one more than there are separators.\<close>

fun split :: "char \<Rightarrow> string \<Rightarrow> string list" where
  "split sep [] = [[]]"
| "split sep (c # cs) =
     (if c = sep then [] # split sep cs
      else (c # hd (split sep cs)) # tl (split sep cs))"

text \<open>
  \<open>loadOpenAIPrompt\<close>: the argument is the text of \<open>openai-prompt.txt\<close>, \<open>None\<close> when
  the file does not exist or reading it throws.
\<close>

definition defaultPrompt :: string where
  \<open>defaultPrompt = ''You are a helpful assistant analyzing Reddit posts. Decide if the post is worth replying to and generate a thoughtful response. Respond in JSON format: {"should_reply": true/false, "reply": "your reply", "reason": "reason if skipping"}.''\<close>

definition loadOpenAIPrompt :: "string option \<Rightarrow> string" where
  "loadOpenAIPrompt promptFile =
     (case promptFile of
        None \<Rightarrow> defaultPrompt
      | Some text \<Rightarrow> (let prompt = trim text in if length prompt > 0 then prompt else defaultPrompt))"

record config =
  apiToken :: string
  fromEmail :: string
  fromName :: string
  toEmail :: string
  subreddits :: "string list"
  checkIntervalMinutes :: num
  postAgeMinutes :: num
  logLevel :: string
  openaiApiKey :: string
  openaiModel :: string
  openaiPrompt :: string
  nodeEnv :: string
  isDevelopment :: bool
  isProduction :: bool

text \<open>
  The module body: the object literal, whose \<open>requireEnv\<close> calls run in order and end
  the evaluation at the first that throws, then the five checks.
\<close>

definition loadConfig :: "(string \<rightharpoonup> string) \<Rightarrow> string option \<Rightarrow> string + config" where
  "loadConfig env promptFile =
     (case requireEnv env ''MAILERSEND_API_TOKEN'' of Inl e \<Rightarrow> Inl e | Inr token \<Rightarrow>
      case requireEnv env ''FROM_EMAIL'' of Inl e \<Rightarrow> Inl e | Inr from_email \<Rightarrow>
      case requireEnv env ''TO_EMAIL'' of Inl e \<Rightarrow> Inl e | Inr to_email \<Rightarrow>
      case requireEnv env ''SUBREDDITS'' of Inl e \<Rightarrow> Inl e | Inr subs \<Rightarrow>
        (let cfg =
           \<lparr>apiToken = token,
            fromEmail = from_email,
            fromName = getEnv env ''FROM_NAME'' ''Reddit RSS Monitor'',
            toEmail = to_email,
            subreddits = filter (\<lambda>s. length s > 0) (map trim (split CHR '','' subs)),
            checkIntervalMinutes = parseInt (getEnv env ''CHECK_INTERVAL_MINUTES'' ''5''),
            postAgeMinutes = parseInt (getEnv env ''POST_AGE_MINUTES'' ''5''),
            logLevel = getEnv env ''LOG_LEVEL'' ''info'',
            openaiApiKey = getEnv env ''OPENAI_API_KEY'' [],
            openaiModel = getEnv env ''OPENAI_MODEL'' ''gpt-4o-mini'',
            openaiPrompt = loadOpenAIPrompt promptFile,
            nodeEnv = getEnv env ''NODE_ENV'' ''development'',
            isDevelopment = (getEnv env ''NODE_ENV'' ''development'' = ''development''),
            isProduction = (getEnv env ''NODE_ENV'' ''development'' = ''production'')\<rparr>
         in if \<not> isValidEmail (fromEmail cfg) then Inl (''Invalid FROM_EMAIL: '' @ fromEmail cfg)
            else if \<not> isValidEmail (toEmail cfg) then Inl (''Invalid TO_EMAIL: '' @ toEmail cfg)
            else if length (subreddits cfg) = 0 then Inl ''SUBREDDITS must contain at least one subreddit''
            else if num_lt (checkIntervalMinutes cfg) (Num 1) then Inl ''CHECK_INTERVAL_MINUTES must be at least 1''
            else if num_lt (postAgeMinutes cfg) (Num 1) then Inl ''POST_AGE_MINUTES must be at least 1''
            else Inr cfg))"

section \<open>index.js\<close>

text \<open>
  \<open>index.js\<close> imports the configuration module before its own body runs, so an error
  thrown there ends the process before \<open>start()\<close> is called: nothing is checked and
  nothing is scheduled. Otherwise \<open>start()\<close> runs the first check and schedules the rest
  with this configuration.
\<close>

datatype process = ExitedAtImport string | Started config

definition startProcess :: "(string \<rightharpoonup> string) \<Rightarrow> string option \<Rightarrow> process" where
  "startProcess env promptFile =
     (case loadConfig env promptFile of
        Inl message \<Rightarrow> ExitedAtImport message
      | Inr cfg \<Rightarrow> Started cfg)"

text \<open>
  The constructor of \<open>OpenAIService\<close>: the service is enabled when the configured API
  key is not empty.
\<close>

definition newOpenAIService :: "config \<Rightarrow> (post \<Rightarrow> completion) \<Rightarrow> (string \<Rightarrow> ai_json option) \<Rightarrow> ai_service" where
  "newOpenAIService cfg create parse =
     \<lparr>enabled = (openaiApiKey cfg \<noteq> []), createCompletion = create, JSON_parse = parse\<rparr>"

text \<open>
  What one run of \<open>monitorFeeds\<close> meets outside the process: the feeds, the dates, the
  post pages, the completion service, the mail provider, and the clock. \<open>Date.now()\<close>
  is read once for each of the three synchronous passes over the tracker: the filter,
  the marking and the cleanup.
\<close>

record cycle_env =
  env_parseURL :: "string \<Rightarrow> string + feed_item list"
  env_getTime :: "string option \<Rightarrow> num"
  env_fetchJson :: "string \<Rightarrow> fetch_outcome"
  env_openaiService :: ai_service
  env_mailerSend :: "body_entry list \<Rightarrow> bool"
  env_nowFilter :: int
  env_nowMark :: int
  env_nowCleanup :: int

text \<open>\<open>allPosts.filter(post => postTracker.isNewPost(post, ...))\<close>, the tracker threaded through.\<close>

fun filter_isNewPost :: "(string option \<Rightarrow> num) \<Rightarrow> int \<Rightarrow> num \<Rightarrow> PostTracker \<Rightarrow> post list \<Rightarrow> post list \<times> PostTracker" where
  "filter_isNewPost getTime now w tr [] = ([], tr)"
| "filter_isNewPost getTime now w tr (p # ps) =
     (case isNewPost getTime now tr p w of (isNew, tr1) \<Rightarrow>
        (case filter_isNewPost getTime now w tr1 ps of (rest, tr2) \<Rightarrow>
           (if isNew then p # rest else rest, tr2)))"

definition withFullContent :: "(string \<Rightarrow> fetch_outcome) \<Rightarrow> post \<Rightarrow> post" where
  "withFullContent fetchJson p =
     (let fc = fetchFullPostContent fetchJson (link p)
      in p\<lparr>fullContent := js_or (js_or fc (contentSnippet p)) (content p)\<rparr>)"

text \<open>\<open>newPosts.forEach(post => postTracker.markAsSeen(post.id))\<close>.\<close>

definition markAllAsSeen :: "int \<Rightarrow> PostTracker \<Rightarrow> post list \<Rightarrow> PostTracker" where
  "markAllAsSeen now tr ps = foldl (\<lambda>t p. markAsSeen now t (post_id p)) tr ps"

text \<open>
  The block under \<open>if (newPosts.length > 0)\<close>: enrich, analyse, send, and mark when the
  send succeeded. It gives the tracker, the analysed posts, what \<open>sendNotification\<close>
  returned (\<open>None\<close> when it was not called) and the text handed to the mail provider.
\<close>

definition notifyNewPosts :: "cycle_env \<Rightarrow> PostTracker \<Rightarrow> post list \<Rightarrow> PostTracker \<times> post list \<times> bool option \<times> body_entry list option" where
  "notifyNewPosts env tr new =
     (if length new > 0 then
        (let postsWithFullContent = map (withFullContent (env_fetchJson env)) new;
             analyzed = (if isEnabled (env_openaiService env)
                         then analyzeAllPosts (env_openaiService env) postsWithFullContent
                         else postsWithFullContent);
             sent = sendNotification (env_mailerSend env) (Some analyzed);
             tr' = (if fst sent then markAllAsSeen (env_nowMark env) tr new else tr)
         in (tr', analyzed, Some (fst sent), snd sent))
      else (tr, [], None, None))"

record cycle_result =
  cycle_tracker :: PostTracker
  cycle_allPosts :: "post list"
  cycle_newPosts :: "post list"
  cycle_analyzedPosts :: "post list"
  cycle_emailSent :: "bool option"
  cycle_emailBody :: "body_entry list option"

text \<open>
  \<open>monitorFeeds\<close>. Nothing in the body throws on the values modelled here (each
  service catches its own failures), so the \<open>catch\<close> of \<open>monitorFeeds\<close> has no branch.
\<close>

definition monitorFeeds :: "cycle_env \<Rightarrow> config \<Rightarrow> PostTracker \<Rightarrow> cycle_result" where
  "monitorFeeds env cfg tr =
     (let feedResults = fetchMultipleFeeds (env_parseURL env) (subreddits cfg);
          every = getAllPosts feedResults;
          filtered = filter_isNewPost (env_getTime env) (env_nowFilter env) (postAgeMinutes cfg) tr every;
          notified = notifyNewPosts env (snd filtered) (fst filtered);
          tr3 = cleanup (env_nowCleanup env) (fst notified)
      in \<lparr>cycle_tracker = tr3,
          cycle_allPosts = every,
          cycle_newPosts = fst filtered,
          cycle_analyzedPosts = fst (snd notified),
          cycle_emailSent = fst (snd (snd notified)),
          cycle_emailBody = snd (snd (snd notified))\<rparr>)"

text \<open>
  Successive runs of \<open>monitorFeeds\<close> on one tracker, each in its own world, and the
  condition that every one of them suppressed its whole batch.
\<close>

fun monitorFeeds_repeat :: "config \<Rightarrow> PostTracker \<Rightarrow> cycle_env list \<Rightarrow> PostTracker" where
  "monitorFeeds_repeat cfg tr [] = tr"
| "monitorFeeds_repeat cfg tr (env # envs) =
     monitorFeeds_repeat cfg (cycle_tracker (monitorFeeds env cfg tr)) envs"

fun all_suppressed :: "config \<Rightarrow> PostTracker \<Rightarrow> cycle_env list \<Rightarrow> bool" where
  "all_suppressed cfg tr [] = True"
| "all_suppressed cfg tr (env # envs) =
     (list_all (\<lambda>p. shouldReply p = Some False) (cycle_analyzedPosts (monitorFeeds env cfg tr))
      \<and> all_suppressed cfg (cycle_tracker (monitorFeeds env cfg tr)) envs)"

section \<open>Fixtures for the concrete instances\<close>

text \<open>
  A post as \<open>fetchFeed\<close> builds it for the subreddit \<open>musebox\<close>, with the given id
  and publish date, and a clock that knows two date strings: midnight of 1 January 2026 (UTC) and ten minutes later.
\<close>

definition example_post :: "string \<Rightarrow> string \<Rightarrow> post" where
  "example_post i d =
     \<lparr>post_id = Some i, title = Some (''Post '' @ i),
      link = Some (''https://www.reddit.com/r/musebox/'' @ i),
      pubDate = Some d, subreddit = ''musebox'', content = None,
      contentSnippet = Some ''A snippet'',
      fullContent = None, shouldReply = None, aiReply = None, skipReason = None\<rparr>"

definition example_getTime :: "string option \<Rightarrow> num" where
  "example_getTime d =
     (if d = Some ''2026-01-01T00:00:00Z'' then Num 1767225600000
      else if d = Some ''2026-01-01T00:10:00Z'' then Num 1767226200000
      else NaN)"

text \<open>
  A feed item, a parser for which only the feed of \<open>musebox\<close> answers (with two
  items), an environment and the configuration it loads to, a completion service that
  gives one answer for the post \<open>a1\<close> and another for every other post, and a world
  whose clock reads \<open>now\<close> and whose mail provider accepts the email or not.
\<close>

definition example_item :: "string \<Rightarrow> string \<Rightarrow> feed_item" where
  "example_item i d =
     \<lparr>item_id = Some i, item_guid = None, item_title = Some (''Post '' @ i),
      item_link = Some (''https://www.reddit.com/r/musebox/'' @ i),
      item_pubDate = Some d, item_isoDate = None,
      item_content = None, item_contentSnippet = Some ''A snippet''\<rparr>"

definition example_parseURL :: "string \<Rightarrow> string + feed_item list" where
  "example_parseURL url =
     (if url = ''https://www.reddit.com/r/musebox/.rss''
      then Inr [example_item ''a1'' ''2026-01-01T00:00:00Z'', example_item ''b2'' ''2026-01-01T00:00:00Z'']
      else Inl ''Status code 503'')"

definition example_environ :: "string \<rightharpoonup> string" where
  "example_environ =
     [''MAILERSEND_API_TOKEN'' \<mapsto> ''token'',
      ''FROM_EMAIL'' \<mapsto> ''m@d.io'',
      ''TO_EMAIL'' \<mapsto> ''me@x.org'',
      ''SUBREDDITS'' \<mapsto> ''down, musebox'']"

definition example_config :: config where
  "example_config =
     \<lparr>apiToken = ''token'', fromEmail = ''m@d.io'', fromName = ''Reddit RSS Monitor'',
      toEmail = ''me@x.org'', subreddits = [''down'', ''musebox''],
      checkIntervalMinutes = Num 5, postAgeMinutes = Num 5, logLevel = ''info'',
      openaiApiKey = [], openaiModel = ''gpt-4o-mini'', openaiPrompt = defaultPrompt,
      nodeEnv = ''development'', isDevelopment = True, isProduction = False\<rparr>"

definition example_ai :: "bool \<Rightarrow> completion \<Rightarrow> completion \<Rightarrow> ai_service" where
  "example_ai on answer1 answer2 =
     \<lparr>enabled = on,
      createCompletion = (\<lambda>p. if post_id p = Some ''a1'' then answer1 else answer2),
      JSON_parse = (\<lambda>s. if s = ''reply''
                         then Some \<lparr>should_reply = True, reply = Some ''Nice track!'', reason = None\<rparr>
                         else if s = ''skip''
                         then Some \<lparr>should_reply = False, reply = None, reason = Some ''Off topic''\<rparr>
                         else None)\<rparr>"

definition example_env :: "ai_service \<Rightarrow> bool \<Rightarrow> int \<Rightarrow> cycle_env" where
  "example_env ai mailOk now =
     \<lparr>env_parseURL = example_parseURL, env_getTime = example_getTime,
      env_fetchJson = (\<lambda>url. ResponseNotOk), env_openaiService = ai,
      env_mailerSend = (\<lambda>body. mailOk),
      env_nowFilter = now, env_nowMark = now, env_nowCleanup = now\<rparr>"

section \<open>Properties of the time window\<close>

text \<open>
  Claim C4. For a publish timestamp \<open>t\<close> and a positive window of \<open>w\<close> minutes,
  \<open>isWithinTimeWindow\<close> is true exactly when \<open>0 \<le> now - t \<le> w * 60000\<close>; a timestamp
  in the future gives false, and so does a date that does not parse (\<open>NaN\<close>), whatever
  the window.
\<close>

theorem isWithinTimeWindow_iff_age_in_window:
  "(getTime d = Num t \<longrightarrow> 0 < w \<longrightarrow>
      isWithinTimeWindow getTime now d (Num w) = (0 \<le> now - t \<and> now - t \<le> w * 60000))
   \<and> (getTime d = Num t \<longrightarrow> now < t \<longrightarrow> \<not> isWithinTimeWindow getTime now d (Num w))
   \<and> (getTime d = NaN \<longrightarrow> \<not> isWithinTimeWindow getTime now d minutes)"
  by (auto simp: isWithinTimeWindow_def Let_def mult.commute)

theorem isWithinTimeWindow_iff_age_in_window_witness:
  "example_getTime (Some ''2026-01-01T00:00:00Z'') = Num 1767225600000
   \<and> isWithinTimeWindow example_getTime 1767225720000 (Some ''2026-01-01T00:00:00Z'') (Num 5)
   \<and> \<not> isWithinTimeWindow example_getTime 1767225600000 (Some ''2026-01-01T00:10:00Z'') (Num 5)
   \<and> example_getTime (Some ''yesterday-ish'') = NaN
   \<and> \<not> isWithinTimeWindow example_getTime 1767225720000 (Some ''yesterday-ish'') (Num 5)"
  using isWithinTimeWindow_iff_age_in_window
          [of example_getTime "Some ''2026-01-01T00:00:00Z''" 1767225600000 5 1767225720000]
        isWithinTimeWindow_iff_age_in_window
          [of example_getTime "Some ''2026-01-01T00:10:00Z''" 1767226200000 5 1767225600000]
        isWithinTimeWindow_iff_age_in_window
          [of example_getTime "Some ''yesterday-ish''" 0 5 1767225720000 "Num 5"]
  by (simp add: example_getTime_def)

section \<open>Properties of the tracker\<close>

lemma seenPosts_isNewPost: "seenPosts (snd (isNewPost gt now tr p w)) = seenPosts tr"
  by (simp add: isNewPost_def logger_call_def Let_def)

lemma seenPosts_markAsSeen: "seenPosts (markAsSeen now tr i) = AList.update i now (seenPosts tr)"
  by (simp add: markAsSeen_def logger_call_def Let_def)

lemma isNewPost_seen: "Map_has (seenPosts tr) (post_id p) \<Longrightarrow> \<not> fst (isNewPost gt now tr p w)"
  by (simp add: isNewPost_def Let_def)

text \<open>
  Claim C5. A post whose id or publish date is absent or empty is not new, and the
  tracker's logger receives one error call for it; any other post is new exactly when
  it is within the window and its id is not a key of \<open>seenPosts\<close>; and \<open>isNewPost\<close>
  never changes \<open>seenPosts\<close>.
\<close>

theorem isNewPost_fails_closed_else_fresh_and_unseen:
  "(\<not> truthy (post_id p) \<or> \<not> truthy (pubDate p) \<longrightarrow>
      fst (isNewPost getTime now tr p w) = False
      \<and> logged (snd (isNewPost getTime now tr p w)) = logged tr @ [LogError (InvalidPostObject p)])
   \<and> (truthy (post_id p) \<and> truthy (pubDate p) \<longrightarrow>
      fst (isNewPost getTime now tr p w) =
        (isWithinTimeWindow getTime now (pubDate p) w \<and> \<not> Map_has (seenPosts tr) (post_id p)))
   \<and> seenPosts (snd (isNewPost getTime now tr p w)) = seenPosts tr"
  by (simp add: isNewPost_def logger_call_def Let_def)

theorem isNewPost_fails_closed_else_fresh_and_unseen_witness:
  "\<not> truthy (post_id ((example_post ''a1'' ''2026-01-01T00:00:00Z'')\<lparr>post_id := None\<rparr>))
   \<and> fst (isNewPost example_getTime 1767225720000 newPostTracker
             ((example_post ''a1'' ''2026-01-01T00:00:00Z'')\<lparr>post_id := None\<rparr>) (Num 5)) = False
   \<and> logged (snd (isNewPost example_getTime 1767225720000 newPostTracker
             ((example_post ''a1'' ''2026-01-01T00:00:00Z'')\<lparr>post_id := None\<rparr>) (Num 5)))
       = [LogError (InvalidPostObject ((example_post ''a1'' ''2026-01-01T00:00:00Z'')\<lparr>post_id := None\<rparr>))]
   \<and> truthy (post_id (example_post ''a1'' ''2026-01-01T00:00:00Z''))
   \<and> truthy (pubDate (example_post ''a1'' ''2026-01-01T00:00:00Z''))
   \<and> fst (isNewPost example_getTime 1767225720000 newPostTracker
             (example_post ''a1'' ''2026-01-01T00:00:00Z'') (Num 5)) = True
   \<and> fst (isNewPost example_getTime 1767225720000 (markAsSeen 1767225700000 newPostTracker (Some ''a1''))
             (example_post ''a1'' ''2026-01-01T00:00:00Z'') (Num 5)) = False"
  using isNewPost_fails_closed_else_fresh_and_unseen
          [of "(example_post ''a1'' ''2026-01-01T00:00:00Z'')\<lparr>post_id := None\<rparr>"
              example_getTime 1767225720000 newPostTracker "Num 5"]
        isNewPost_fails_closed_else_fresh_and_unseen
          [of "example_post ''a1'' ''2026-01-01T00:00:00Z''"
              example_getTime 1767225720000 newPostTracker "Num 5"]
        isNewPost_fails_closed_else_fresh_and_unseen
          [of "example_post ''a1'' ''2026-01-01T00:00:00Z''"
              example_getTime 1767225720000 "markAsSeen 1767225700000 newPostTracker (Some ''a1'')" "Num 5"]
  by (simp add: example_post_def example_getTime_def newPostTracker_def isWithinTimeWindow_def
      Map_has_def seenPosts_markAsSeen)

subsection \<open>The cleanup loop\<close>

lemma cleanup_loop_fst:
  "fst (cleanup_loop now es m c) =
     filter (\<lambda>e. fst e \<notin> fst ` set (filter (\<lambda>e. now - snd e > MAX_AGE_MS) es)) m"
proof (induction es arbitrary: m c)
  case Nil
  then show ?case by simp
next
  case (Cons e es)
  obtain k ts where e: "e = (k, ts)" by (cases e)
  show ?case
    unfolding e by (auto simp: Cons.IH AList.delete_eq intro!: filter_cong)
qed

lemma cleanup_loop_snd:
  "snd (cleanup_loop now es m c) = c + length (filter (\<lambda>e. now - snd e > MAX_AGE_MS) es)"
  by (induction es arbitrary: m c) auto

lemma cleanup_loop_self:
  assumes "distinct (map fst m)"
  shows "fst (cleanup_loop now m m c) = filter (\<lambda>e. \<not> now - snd e > MAX_AGE_MS) m"
proof -
  have "(fst e \<notin> fst ` set (filter (\<lambda>e. now - snd e > MAX_AGE_MS) m)) = (\<not> now - snd e > MAX_AGE_MS)"
    if em: "e \<in> set m" for e
  proof
    assume "fst e \<notin> fst ` set (filter (\<lambda>e. now - snd e > MAX_AGE_MS) m)"
    with em show "\<not> now - snd e > MAX_AGE_MS" by force
  next
    assume fresh: "\<not> now - snd e > MAX_AGE_MS"
    show "fst e \<notin> fst ` set (filter (\<lambda>e. now - snd e > MAX_AGE_MS) m)"
    proof
      assume "fst e \<in> fst ` set (filter (\<lambda>e. now - snd e > MAX_AGE_MS) m)"
      then obtain e' where e': "e' \<in> set m" "now - snd e' > MAX_AGE_MS" "fst e' = fst e"
        by auto
      from assms em e'(1,3) have "snd e' = snd e"
        by (metis eq_key_imp_eq_value prod.collapse)
      with e'(2) fresh show False by simp
    qed
  qed
  then show ?thesis
    unfolding cleanup_loop_fst by (auto intro!: filter_cong)
qed

lemma seenPosts_cleanup:
  "distinct (map fst (seenPosts tr)) \<Longrightarrow>
   seenPosts (cleanup now tr) = filter (\<lambda>e. \<not> now - snd e > MAX_AGE_MS) (seenPosts tr)"
  using cleanup_loop_self[of "seenPosts tr" now 0]
  by (auto simp: cleanup_def logger_call_def Let_def split: prod.splits)

lemma seenPosts_cleanup_hour:
  assumes "distinct (map fst (seenPosts tr))"
  shows "seenPosts (cleanup now tr) =
           filter (\<lambda>(postId, timestamp). now - timestamp \<le> 60 * 60 * 1000) (seenPosts tr)"
  unfolding seenPosts_cleanup[OF assms]
  by (rule filter_cong) (auto simp: MAX_AGE_MS_def)

text \<open>
  Claim C7. On a tracker whose map has distinct keys (every \<open>Map\<close> has), \<open>cleanup\<close> at
  time \<open>now\<close> leaves exactly the records marked at most one hour before \<open>now\<close>, each with
  its timestamp and in its place: none older remains and none younger is touched. A
  record made at \<open>t0\<close> is removed by a cleanup 61 minutes later and kept by a cleanup 59
  minutes later.
\<close>

theorem cleanup_keeps_exactly_records_within_horizon:
  "(distinct (map fst (seenPosts tr)) \<longrightarrow>
      seenPosts (cleanup now tr) =
        filter (\<lambda>(postId, timestamp). now - timestamp \<le> 60 * 60 * 1000) (seenPosts tr))
   \<and> seenPosts (cleanup (t0 + 61 * 60 * 1000) (markAsSeen t0 newPostTracker a)) = []
   \<and> seenPosts (cleanup (t0 + 59 * 60 * 1000) (markAsSeen t0 newPostTracker a)) = [(a, t0)]"
proof -
  have one: "seenPosts (markAsSeen t0 newPostTracker a) = [(a, t0)]"
    by (simp add: seenPosts_markAsSeen newPostTracker_def)
  have d: "distinct (map fst (seenPosts (markAsSeen t0 newPostTracker a)))"
    by (simp add: one)
  have "seenPosts (cleanup (t0 + 61 * 60 * 1000) (markAsSeen t0 newPostTracker a)) = []"
    unfolding seenPosts_cleanup_hour[OF d] one by simp
  moreover have "seenPosts (cleanup (t0 + 59 * 60 * 1000) (markAsSeen t0 newPostTracker a)) = [(a, t0)]"
    unfolding seenPosts_cleanup_hour[OF d] one by simp
  ultimately show ?thesis using seenPosts_cleanup_hour[of tr now] by blast
qed

theorem cleanup_keeps_exactly_records_within_horizon_witness:
  "distinct (map fst [(Some ''a1'', 1767225600000), (Some ''b2'', 1767225900000 :: int)])
   \<and> seenPosts (cleanup 1767229260000
        \<lparr>seenPosts = [(Some ''a1'', 1767225600000), (Some ''b2'', 1767225900000)], logged = []\<rparr>)
       = [(Some ''b2'', 1767225900000)]"
  using cleanup_keeps_exactly_records_within_horizon
          [of "\<lparr>seenPosts = [(Some ''a1'', 1767225600000), (Some ''b2'', 1767225900000)], logged = []\<rparr>"
              1767229260000]
  by simp

subsection \<open>Sequences of calls\<close>

lemma distinct_tracker_step:
  "distinct (map fst (seenPosts tr)) \<Longrightarrow> distinct (map fst (seenPosts (tracker_step gt tr c)))"
  by (cases c) (simp_all add: seenPosts_isNewPost seenPosts_markAsSeen seenPosts_cleanup
      distinct_update distinct_map_filter)

lemma Map_has_tracker_step:
  assumes d: "distinct (map fst (seenPosts tr))"
    and h: "Map_has (seenPosts tr) i"
    and e: "\<not> evicts c tr i"
  shows "Map_has (seenPosts (tracker_step gt tr c)) i"
proof (cases c)
  case (CallIsNewPost now p w)
  with h show ?thesis by (simp add: seenPosts_isNewPost)
next
  case (CallMarkAsSeen now j)
  with h show ?thesis
    by (auto simp: seenPosts_markAsSeen Map_has_def dom_update)
next
  case (CallCleanup now)
  from h obtain ts where ts: "(i, ts) \<in> set (seenPosts tr)"
    by (auto simp: Map_has_def)
  with d have "map_of (seenPosts tr) i = Some ts" by simp
  with e CallCleanup have "\<not> now - ts > MAX_AGE_MS" by simp
  with ts have "(i, ts) \<in> set (filter (\<lambda>e. \<not> now - snd e > MAX_AGE_MS) (seenPosts tr))"
    by simp
  then have "i \<in> fst ` set (filter (\<lambda>e. \<not> now - snd e > MAX_AGE_MS) (seenPosts tr))"
    by (rule image_eqI[rotated]) simp
  then show ?thesis
    by (simp add: CallCleanup seenPosts_cleanup[OF d] Map_has_def)
qed

lemma Map_has_run:
  "distinct (map fst (seenPosts tr)) \<Longrightarrow> Map_has (seenPosts tr) i \<Longrightarrow> \<not> evicted gt tr cs i \<Longrightarrow>
   Map_has (seenPosts (foldl (tracker_step gt) tr cs)) i"
proof (induction cs arbitrary: tr)
  case Nil
  then show ?case by simp
next
  case (Cons c cs)
  then show ?case
    by (simp add: distinct_tracker_step Map_has_tracker_step)
qed

text \<open>
  Claim C6. After \<open>markAsSeen(postId)\<close>, whatever calls follow (queries, marks of any
  id, cleanups), as long as none of them is a cleanup that deletes the record of
  \<open>postId\<close>, \<open>isNewPost\<close> is false for every post with that id, at every time and for
  every window, however recent the post.
\<close>

theorem marked_post_not_new_until_evicted:
  assumes "distinct (map fst (seenPosts tr))"
    and "\<not> evicted getTime (markAsSeen t0 tr postId) calls postId"
    and "post_id p = postId"
  shows "fst (isNewPost getTime now (foldl (tracker_step getTime) (markAsSeen t0 tr postId) calls) p w) = False"
proof -
  have d: "distinct (map fst (seenPosts (markAsSeen t0 tr postId)))"
    using assms(1) by (simp add: seenPosts_markAsSeen distinct_update)
  have h: "Map_has (seenPosts (markAsSeen t0 tr postId)) postId"
    by (simp add: seenPosts_markAsSeen Map_has_def dom_update)
  from Map_has_run[OF d h assms(2)] assms(3) show ?thesis
    by (simp add: isNewPost_seen)
qed

theorem marked_post_not_new_until_evicted_witness:
  "distinct (map fst (seenPosts newPostTracker))
   \<and> \<not> evicted example_getTime (markAsSeen 1767225720000 newPostTracker (Some ''a1''))
        [CallIsNewPost 1767225780000 (example_post ''a1'' ''2026-01-01T00:00:00Z'') (Num 5),
         CallMarkAsSeen 1767225790000 (Some ''b2''),
         CallCleanup 1767229260000] (Some ''a1'')
   \<and> post_id (example_post ''a1'' ''2026-01-01T00:00:00Z'') = Some ''a1''
   \<and> isWithinTimeWindow example_getTime 1767229270000 (Some ''2026-01-01T00:00:00Z'') (Num 90)
   \<and> fst (isNewPost example_getTime 1767229270000
        (foldl (tracker_step example_getTime) (markAsSeen 1767225720000 newPostTracker (Some ''a1''))
          [CallIsNewPost 1767225780000 (example_post ''a1'' ''2026-01-01T00:00:00Z'') (Num 5),
           CallMarkAsSeen 1767225790000 (Some ''b2''),
           CallCleanup 1767229260000])
        (example_post ''a1'' ''2026-01-01T00:00:00Z'') (Num 90)) = False"
proof -
  have d: "distinct (map fst (seenPosts newPostTracker))"
    by (simp add: newPostTracker_def)
  have e: "\<not> evicted example_getTime (markAsSeen 1767225720000 newPostTracker (Some ''a1''))
        [CallIsNewPost 1767225780000 (example_post ''a1'' ''2026-01-01T00:00:00Z'') (Num 5),
         CallMarkAsSeen 1767225790000 (Some ''b2''),
         CallCleanup 1767229260000] (Some ''a1'')"
    by (simp add: seenPosts_isNewPost seenPosts_markAsSeen newPostTracker_def MAX_AGE_MS_def)
  have p: "post_id (example_post ''a1'' ''2026-01-01T00:00:00Z'') = Some ''a1''"
    by (simp add: example_post_def)
  have f: "isWithinTimeWindow example_getTime 1767229270000 (Some ''2026-01-01T00:00:00Z'') (Num 90)"
    by (simp add: isWithinTimeWindow_def example_getTime_def)
  from marked_post_not_new_until_evicted[OF d e p] d e p f show ?thesis
    by blast
qed

section \<open>Properties of the polling cycle\<close>

lemma isNewPost_fst_cong:
  "seenPosts tr = seenPosts tr' \<Longrightarrow> fst (isNewPost gt now tr p w) = fst (isNewPost gt now tr' p w)"
  by (simp add: isNewPost_def Let_def)

lemma filter_isNewPost_seenPosts:
  "seenPosts (snd (filter_isNewPost gt now w tr ps)) = seenPosts tr"
proof (induction ps arbitrary: tr)
  case Nil
  then show ?case by simp
next
  case (Cons p ps)
  have "seenPosts (snd (filter_isNewPost gt now w (snd (isNewPost gt now tr p w)) ps)) = seenPosts tr"
    by (simp add: Cons.IH seenPosts_isNewPost)
  then show ?case
    by (simp split: prod.splits) (metis snd_conv)
qed

lemma filter_isNewPost_fst:
  "fst (filter_isNewPost gt now w tr ps) = filter (\<lambda>p. fst (isNewPost gt now tr p w)) ps"
proof (induction ps arbitrary: tr)
  case Nil
  then show ?case by simp
next
  case (Cons p ps)
  let ?tr1 = "snd (isNewPost gt now tr p w)"
  have same: "(\<lambda>q. fst (isNewPost gt now ?tr1 q w)) = (\<lambda>q. fst (isNewPost gt now tr q w))"
    by (rule ext, rule isNewPost_fst_cong) (simp add: seenPosts_isNewPost)
  have "fst (filter_isNewPost gt now w ?tr1 ps) = filter (\<lambda>q. fst (isNewPost gt now tr q w)) ps"
    by (simp add: Cons.IH same)
  then show ?case
    by (cases "isNewPost gt now tr p w"; cases "filter_isNewPost gt now w (snd (isNewPost gt now tr p w)) ps")
       simp
qed

lemma cleanup_seenPosts_cong:
  "seenPosts tr = seenPosts tr' \<Longrightarrow> seenPosts (cleanup now tr) = seenPosts (cleanup now tr')"
  by (simp add: cleanup_def logger_call_def Let_def split: prod.splits)

lemma Map_has_cleanup:
  "Map_has (seenPosts (cleanup now tr)) k \<Longrightarrow> Map_has (seenPosts tr) k"
proof -
  have "seenPosts (cleanup now tr) = fst (cleanup_loop now (seenPosts tr) (seenPosts tr) 0)"
    by (simp add: cleanup_def logger_call_def Let_def split: prod.splits)
  then show "Map_has (seenPosts (cleanup now tr)) k \<Longrightarrow> Map_has (seenPosts tr) k"
    by (auto simp: cleanup_loop_fst Map_has_def)
qed

lemma sendNotification_all_suppressed:
  "list_all (\<lambda>p. shouldReply p = Some False) ps \<Longrightarrow> sendNotification m (Some ps) = (False, None)"
proof -
  assume "list_all (\<lambda>p. shouldReply p = Some False) ps"
  then have "filter (\<lambda>p. shouldReply p \<noteq> Some False) ps = []"
    by (simp add: list_all_iff filter_empty_conv)
  then show ?thesis
    by (simp add: sendNotification_def)
qed

lemma notifyNewPosts_not_sent:
  "fst (snd (snd (notifyNewPosts env tr new))) \<noteq> Some True \<Longrightarrow> fst (notifyNewPosts env tr new) = tr"
  by (auto simp: notifyNewPosts_def Let_def split: if_splits)

lemma monitorFeeds_not_sent:
  assumes "cycle_emailSent (monitorFeeds env cfg tr) \<noteq> Some True"
  shows "seenPosts (cycle_tracker (monitorFeeds env cfg tr)) = seenPosts (cleanup (env_nowCleanup env) tr)"
proof -
  let ?f = "filter_isNewPost (env_getTime env) (env_nowFilter env) (postAgeMinutes cfg) tr
              (getAllPosts (fetchMultipleFeeds (env_parseURL env) (subreddits cfg)))"
  from assms have "fst (snd (snd (notifyNewPosts env (snd ?f) (fst ?f)))) \<noteq> Some True"
    by (simp add: monitorFeeds_def Let_def)
  then have "fst (notifyNewPosts env (snd ?f) (fst ?f)) = snd ?f"
    by (rule notifyNewPosts_not_sent)
  then have "cycle_tracker (monitorFeeds env cfg tr) = cleanup (env_nowCleanup env) (snd ?f)"
    by (simp add: monitorFeeds_def Let_def)
  then show ?thesis
    by (simp add: cleanup_seenPosts_cong[OF filter_isNewPost_seenPosts])
qed

lemma cycle_newPosts_eq:
  "cycle_newPosts (monitorFeeds env cfg tr) =
     filter (\<lambda>p. fst (isNewPost (env_getTime env) (env_nowFilter env) tr p (postAgeMinutes cfg)))
       (cycle_allPosts (monitorFeeds env cfg tr))"
  by (simp add: monitorFeeds_def Let_def filter_isNewPost_fst)

lemma isNewPost_true_iff:
  "fst (isNewPost gt now tr p w) =
     (truthy (post_id p) \<and> truthy (pubDate p) \<and> isWithinTimeWindow gt now (pubDate p) w
      \<and> \<not> Map_has (seenPosts tr) (post_id p))"
  by (auto simp: isNewPost_def Let_def)

lemma new_again_after_unsent_cycle:
  assumes unsent: "cycle_emailSent (monitorFeeds env cfg tr) \<noteq> Some True"
    and new: "p \<in> set (cycle_newPosts (monitorFeeds env cfg tr))"
    and offered: "p \<in> set (cycle_allPosts (monitorFeeds env2 cfg (cycle_tracker (monitorFeeds env cfg tr))))"
    and fresh: "isWithinTimeWindow (env_getTime env2) (env_nowFilter env2) (pubDate p) (postAgeMinutes cfg)"
  shows "p \<in> set (cycle_newPosts (monitorFeeds env2 cfg (cycle_tracker (monitorFeeds env cfg tr))))"
proof -
  from new have n: "truthy (post_id p)" "truthy (pubDate p)" "\<not> Map_has (seenPosts tr) (post_id p)"
    by (simp_all add: cycle_newPosts_eq isNewPost_true_iff)
  from n(3) have "\<not> Map_has (seenPosts (cleanup (env_nowCleanup env) tr)) (post_id p)"
    using Map_has_cleanup by blast
  then have "\<not> Map_has (seenPosts (cycle_tracker (monitorFeeds env cfg tr))) (post_id p)"
    by (simp add: monitorFeeds_not_sent[OF unsent])
  with n(1,2) fresh offered show ?thesis
    by (simp add: cycle_newPosts_eq[of env2] isNewPost_true_iff)
qed

text \<open>
  Claim C1. In a cycle whose \<open>sendNotification\<close> returns false, the block that
  notifies hands back the tracker it was given: \<open>markAsSeen\<close> is called for no post
  (each call would add a record and a logger call). The map after the cycle is the map
  before it as cleaned up, and every post of the batch that a later cycle is offered
  while it is still within the window is new in that cycle again.
\<close>

theorem failed_dispatch_marks_nothing_and_retries:
  assumes "cycle_emailSent (monitorFeeds env cfg tr) = Some False"
  shows "fst (notifyNewPosts env
               (snd (filter_isNewPost (env_getTime env) (env_nowFilter env) (postAgeMinutes cfg) tr
                      (cycle_allPosts (monitorFeeds env cfg tr))))
               (cycle_newPosts (monitorFeeds env cfg tr)))
           = snd (filter_isNewPost (env_getTime env) (env_nowFilter env) (postAgeMinutes cfg) tr
                      (cycle_allPosts (monitorFeeds env cfg tr)))
         \<and> seenPosts (cycle_tracker (monitorFeeds env cfg tr)) = seenPosts (cleanup (env_nowCleanup env) tr)
         \<and> (\<forall>p \<in> set (cycle_newPosts (monitorFeeds env cfg tr)).
               p \<in> set (cycle_allPosts (monitorFeeds later cfg (cycle_tracker (monitorFeeds env cfg tr))))
               \<longrightarrow> isWithinTimeWindow (env_getTime later) (env_nowFilter later) (pubDate p) (postAgeMinutes cfg)
               \<longrightarrow> p \<in> set (cycle_newPosts (monitorFeeds later cfg (cycle_tracker (monitorFeeds env cfg tr)))))"
proof -
  from assms have unsent: "cycle_emailSent (monitorFeeds env cfg tr) \<noteq> Some True"
    by simp
  let ?f = "filter_isNewPost (env_getTime env) (env_nowFilter env) (postAgeMinutes cfg) tr
              (cycle_allPosts (monitorFeeds env cfg tr))"
  have f: "?f = filter_isNewPost (env_getTime env) (env_nowFilter env) (postAgeMinutes cfg) tr
              (getAllPosts (fetchMultipleFeeds (env_parseURL env) (subreddits cfg)))"
    by (simp add: monitorFeeds_def Let_def)
  have n: "cycle_newPosts (monitorFeeds env cfg tr) = fst ?f"
    by (simp add: monitorFeeds_def Let_def)
  from unsent have "fst (snd (snd (notifyNewPosts env (snd ?f) (fst ?f)))) \<noteq> Some True"
    by (simp add: monitorFeeds_def Let_def)
  then have a: "fst (notifyNewPosts env (snd ?f) (cycle_newPosts (monitorFeeds env cfg tr))) = snd ?f"
    unfolding n by (rule notifyNewPosts_not_sent)
  show ?thesis
    using a monitorFeeds_not_sent[OF unsent] new_again_after_unsent_cycle[OF unsent]
    by blast
qed

theorem failed_dispatch_marks_nothing_and_retries_witness:
  "cycle_emailSent (monitorFeeds (example_env (example_ai False (ApiThrows None) (ApiThrows None)) False 1767225720000)
      example_config newPostTracker) = Some False
   \<and> seenPosts (cycle_tracker (monitorFeeds (example_env (example_ai False (ApiThrows None) (ApiThrows None)) False 1767225720000)
      example_config newPostTracker)) = []
   \<and> example_post ''a1'' ''2026-01-01T00:00:00Z''
        \<in> set (cycle_newPosts (monitorFeeds (example_env (example_ai False (ApiThrows None) (ApiThrows None)) False 1767225720000)
             example_config newPostTracker))
   \<and> example_post ''a1'' ''2026-01-01T00:00:00Z''
        \<in> set (cycle_newPosts (monitorFeeds (example_env (example_ai False (ApiThrows None) (ApiThrows None)) True 1767225840000)
             example_config
             (cycle_tracker (monitorFeeds (example_env (example_ai False (ApiThrows None) (ApiThrows None)) False 1767225720000)
               example_config newPostTracker))))"
proof -
  let ?env = "example_env (example_ai False (ApiThrows None) (ApiThrows None)) False 1767225720000"
  let ?env2 = "example_env (example_ai False (ApiThrows None) (ApiThrows None)) True 1767225840000"
  let ?p = "example_post ''a1'' ''2026-01-01T00:00:00Z''"
  have h: "cycle_emailSent (monitorFeeds ?env example_config newPostTracker) = Some False"
    by code_simp
  have np: "?p \<in> set (cycle_newPosts (monitorFeeds ?env example_config newPostTracker))"
    by code_simp
  have ap: "?p \<in> set (cycle_allPosts (monitorFeeds ?env2 example_config
              (cycle_tracker (monitorFeeds ?env example_config newPostTracker))))"
    by code_simp
  have fr: "isWithinTimeWindow (env_getTime ?env2) (env_nowFilter ?env2) (pubDate ?p) (postAgeMinutes example_config)"
    by code_simp
  have cl: "seenPosts (cleanup (env_nowCleanup ?env) newPostTracker) = []"
    by code_simp
  have again: "?p \<in> set (cycle_newPosts (monitorFeeds ?env2 example_config
              (cycle_tracker (monitorFeeds ?env example_config newPostTracker))))"
    using failed_dispatch_marks_nothing_and_retries[OF h, where later = ?env2] np ap fr by blast
  have "seenPosts (cycle_tracker (monitorFeeds ?env example_config newPostTracker)) = []"
    using failed_dispatch_marks_nothing_and_retries[OF h, where later = ?env2] cl by simp
  with h np again show ?thesis
    by blast
qed

subsection \<open>Feeds\<close>

lemma cycle_allPosts_eq:
  "cycle_allPosts (monitorFeeds env cfg tr) = getAllPosts (fetchMultipleFeeds (env_parseURL env) (subreddits cfg))"
  by (simp add: monitorFeeds_def Let_def)

lemma getAllPosts_Cons:
  "getAllPosts (r # rs) = (if success r then posts r @ getAllPosts rs else getAllPosts rs)"
  by (simp add: getAllPosts_def)

lemma getAllPosts_fetchMultipleFeeds:
  "getAllPosts (fetchMultipleFeeds parseURL subs) =
     concat (map (\<lambda>s. case parseURL (feed_url s) of
                          Inl message \<Rightarrow> []
                        | Inr items \<Rightarrow> map (item_to_post s) items) subs)"
  by (induction subs)
     (auto simp: fetchMultipleFeeds_def getAllPosts_def fetchFeed_def split: sum.splits)

lemma fetched_posts_not_analysed:
  "p \<in> set (getAllPosts (fetchMultipleFeeds parseURL subs)) \<Longrightarrow> shouldReply p = None"
  by (auto simp: getAllPosts_fetchMultipleFeeds item_to_post_def split: sum.splits)

lemma shouldReply_withFullContent: "shouldReply (withFullContent f p) = shouldReply p"
  by (simp add: withFullContent_def Let_def)

lemma sendNotification_none_suppressed:
  assumes "ps \<noteq> []" and "\<forall>p \<in> set ps. shouldReply p \<noteq> Some False"
  shows "snd (sendNotification m (Some ps)) = Some (formatEmailBody ps)"
proof -
  from assms(2) have "filter (\<lambda>p. shouldReply p \<noteq> Some False) ps = ps"
    by (simp add: filter_id_conv)
  with assms(1) show ?thesis
    by (simp add: sendNotification_def Let_def)
qed

lemma cycle_emailBody_disabled:
  assumes off: "\<not> enabled (env_openaiService env)"
    and some: "cycle_newPosts (monitorFeeds env cfg tr) \<noteq> []"
  shows "cycle_emailBody (monitorFeeds env cfg tr) =
           Some (formatEmailBody (map (withFullContent (env_fetchJson env)) (cycle_newPosts (monitorFeeds env cfg tr))))"
proof -
  let ?new = "cycle_newPosts (monitorFeeds env cfg tr)"
  let ?full = "map (withFullContent (env_fetchJson env)) ?new"
  have sub: "set ?new \<subseteq> set (getAllPosts (fetchMultipleFeeds (env_parseURL env) (subreddits cfg)))"
    by (auto simp: cycle_newPosts_eq cycle_allPosts_eq)
  have "\<forall>p \<in> set ?full. shouldReply p \<noteq> Some False"
    using sub fetched_posts_not_analysed by (fastforce simp: shouldReply_withFullContent)
  moreover from some have "?full \<noteq> []" by simp
  ultimately have "snd (sendNotification (env_mailerSend env) (Some ?full)) = Some (formatEmailBody ?full)"
    by (rule sendNotification_none_suppressed[rotated])
  moreover have "cycle_emailBody (monitorFeeds env cfg tr) = snd (sendNotification (env_mailerSend env) (Some ?full))"
    using off some by (simp add: monitorFeeds_def notifyNewPosts_def isEnabled_def Let_def)
  ultimately show ?thesis by simp
qed

text \<open>
  Claim C8. \<open>fetchFeed\<close> turns a failure of the parser into a result with
  \<open>success = false\<close> and no posts; \<open>getAllPosts\<close> of the fetched results is the
  concatenation, in order, of the posts of the sources that succeeded; with two sources
  of which one fails, the cycle runs exactly as it would with the other source alone;
  and a cycle with new posts and no AI service hands the mail provider an email with
  one entry for each new post.
\<close>

theorem failed_source_does_not_abort_others:
  "(parseURL (feed_url s) = Inl message \<longrightarrow>
      fetchFeed parseURL s = \<lparr>success = False, result_subreddit = s, error = Some message, posts = []\<rparr>)
   \<and> getAllPosts (fetchMultipleFeeds parseURL subs) =
        concat (map (\<lambda>s. case parseURL (feed_url s) of
                             Inl message \<Rightarrow> []
                           | Inr items \<Rightarrow> map (item_to_post s) items) subs)
   \<and> (env_parseURL env (feed_url a) = Inl message \<longrightarrow> subreddits cfg = [a, b] \<longrightarrow>
        monitorFeeds env cfg tr = monitorFeeds env (cfg\<lparr>subreddits := [b]\<rparr>) tr)
   \<and> (env_parseURL env (feed_url b) = Inl message \<longrightarrow> subreddits cfg = [a, b] \<longrightarrow>
        monitorFeeds env cfg tr = monitorFeeds env (cfg\<lparr>subreddits := [a]\<rparr>) tr)
   \<and> (\<not> enabled (env_openaiService env) \<longrightarrow> cycle_newPosts (monitorFeeds env cfg tr) \<noteq> [] \<longrightarrow>
        cycle_emailBody (monitorFeeds env cfg tr) =
          Some (formatEmailBody (map (withFullContent (env_fetchJson env))
                  (cycle_newPosts (monitorFeeds env cfg tr)))))"
proof -
  have 1: "parseURL (feed_url s) = Inl message \<longrightarrow>
      fetchFeed parseURL s = \<lparr>success = False, result_subreddit = s, error = Some message, posts = []\<rparr>"
    by (simp add: fetchFeed_def)
  have 3: "env_parseURL env (feed_url a) = Inl message \<longrightarrow> subreddits cfg = [a, b] \<longrightarrow>
        monitorFeeds env cfg tr = monitorFeeds env (cfg\<lparr>subreddits := [b]\<rparr>) tr"
    by (simp add: monitorFeeds_def getAllPosts_fetchMultipleFeeds)
  have 4: "env_parseURL env (feed_url b) = Inl message \<longrightarrow> subreddits cfg = [a, b] \<longrightarrow>
        monitorFeeds env cfg tr = monitorFeeds env (cfg\<lparr>subreddits := [a]\<rparr>) tr"
    by (simp add: monitorFeeds_def getAllPosts_fetchMultipleFeeds)
  show ?thesis
    using 1 3 4 getAllPosts_fetchMultipleFeeds[of parseURL subs] cycle_emailBody_disabled[of env cfg tr]
    by blast
qed

theorem failed_source_does_not_abort_others_witness:
  "example_parseURL (feed_url ''down'') = Inl ''Status code 503''
   \<and> fetchFeed example_parseURL ''down''
        = \<lparr>success = False, result_subreddit = ''down'', error = Some ''Status code 503'', posts = []\<rparr>
   \<and> subreddits example_config = [''down'', ''musebox'']
   \<and> monitorFeeds (example_env (example_ai False (ApiThrows None) (ApiThrows None)) True 1767225720000)
        example_config newPostTracker
      = monitorFeeds (example_env (example_ai False (ApiThrows None) (ApiThrows None)) True 1767225720000)
        (example_config\<lparr>subreddits := [''musebox'']\<rparr>) newPostTracker
   \<and> map post_id (cycle_newPosts (monitorFeeds
        (example_env (example_ai False (ApiThrows None) (ApiThrows None)) True 1767225720000)
        example_config newPostTracker)) = [Some ''a1'', Some ''b2'']
   \<and> map_option (map entry_title) (cycle_emailBody (monitorFeeds
        (example_env (example_ai False (ApiThrows None) (ApiThrows None)) True 1767225720000)
        example_config newPostTracker)) = Some [Some ''Post a1'', Some ''Post b2'']"
proof -
  let ?env = "example_env (example_ai False (ApiThrows None) (ApiThrows None)) True 1767225720000"
  have f: "env_parseURL ?env (feed_url ''down'') = Inl ''Status code 503''"
    by code_simp
  have f': "example_parseURL (feed_url ''down'') = Inl ''Status code 503''"
    by code_simp
  have s: "subreddits example_config = [''down'', ''musebox'']"
    by code_simp
  have off: "\<not> enabled (env_openaiService ?env)"
    by code_simp
  have n: "map post_id (cycle_newPosts (monitorFeeds ?env example_config newPostTracker)) = [Some ''a1'', Some ''b2'']"
    by code_simp
  then have ne: "cycle_newPosts (monitorFeeds ?env example_config newPostTracker) \<noteq> []"
    by auto
  have t: "map_option (map entry_title) (Some (formatEmailBody (map (withFullContent (env_fetchJson ?env))
                  (cycle_newPosts (monitorFeeds ?env example_config newPostTracker)))))
            = Some [Some ''Post a1'', Some ''Post b2'']"
    by code_simp
  note inst = failed_source_does_not_abort_others[where parseURL = example_parseURL and s = "''down''"
      and message = "''Status code 503''" and env = ?env and a = "''down''" and cfg = example_config
      and b = "''musebox''" and tr = newPostTracker]
  from inst f' have "fetchFeed example_parseURL ''down''
        = \<lparr>success = False, result_subreddit = ''down'', error = Some ''Status code 503'', posts = []\<rparr>"
    by blast
  moreover from inst f s have "monitorFeeds ?env example_config newPostTracker
      = monitorFeeds ?env (example_config\<lparr>subreddits := [''musebox'']\<rparr>) newPostTracker"
    by blast
  moreover from inst off ne have "cycle_emailBody (monitorFeeds ?env example_config newPostTracker) =
          Some (formatEmailBody (map (withFullContent (env_fetchJson ?env))
                  (cycle_newPosts (monitorFeeds ?env example_config newPostTracker))))"
    by blast
  ultimately show ?thesis
    using f' s n t by simp
qed

subsection \<open>Suppressed batches\<close>

lemma cycle_suppressed_not_sent:
  assumes "list_all (\<lambda>p. shouldReply p = Some False) (cycle_analyzedPosts (monitorFeeds env cfg tr))"
  shows "cycle_emailBody (monitorFeeds env cfg tr) = None
         \<and> cycle_emailSent (monitorFeeds env cfg tr) \<noteq> Some True"
proof -
  let ?f = "filter_isNewPost (env_getTime env) (env_nowFilter env) (postAgeMinutes cfg) tr
              (getAllPosts (fetchMultipleFeeds (env_parseURL env) (subreddits cfg)))"
  let ?n = "notifyNewPosts env (snd ?f) (fst ?f)"
  have r: "cycle_analyzedPosts (monitorFeeds env cfg tr) = fst (snd ?n)"
    "cycle_emailSent (monitorFeeds env cfg tr) = fst (snd (snd ?n))"
    "cycle_emailBody (monitorFeeds env cfg tr) = snd (snd (snd ?n))"
    by (simp_all add: monitorFeeds_def Let_def)
  show ?thesis
  proof (cases "length (fst ?f) > 0")
    case False
    then show ?thesis
      unfolding r by (simp add: notifyNewPosts_def)
  next
    case True
    let ?full = "map (withFullContent (env_fetchJson env)) (fst ?f)"
    let ?an = "if isEnabled (env_openaiService env)
               then analyzeAllPosts (env_openaiService env) ?full else ?full"
    from True have n: "?n = ((if fst (sendNotification (env_mailerSend env) (Some ?an))
                               then markAllAsSeen (env_nowMark env) (snd ?f) (fst ?f) else snd ?f),
                             ?an, Some (fst (sendNotification (env_mailerSend env) (Some ?an))),
                             snd (sendNotification (env_mailerSend env) (Some ?an)))"
      by (simp add: notifyNewPosts_def Let_def)
    from assms have "list_all (\<lambda>p. shouldReply p = Some False) ?an"
      unfolding r n by simp
    then have "sendNotification (env_mailerSend env) (Some ?an) = (False, None)"
      by (rule sendNotification_all_suppressed)
    then show ?thesis
      unfolding r n by simp
  qed
qed

lemma Map_has_monitorFeeds_repeat:
  "all_suppressed cfg tr envs \<Longrightarrow> Map_has (seenPosts (monitorFeeds_repeat cfg tr envs)) k \<Longrightarrow>
   Map_has (seenPosts tr) k"
proof (induction envs arbitrary: tr)
  case Nil
  then show ?case by simp
next
  case (Cons env envs)
  from Cons.prems(1) have sup: "list_all (\<lambda>p. shouldReply p = Some False) (cycle_analyzedPosts (monitorFeeds env cfg tr))"
    and rest: "all_suppressed cfg (cycle_tracker (monitorFeeds env cfg tr)) envs"
    by simp_all
  from Cons.prems(2) have "Map_has (seenPosts (monitorFeeds_repeat cfg (cycle_tracker (monitorFeeds env cfg tr)) envs)) k"
    by simp
  with rest have "Map_has (seenPosts (cycle_tracker (monitorFeeds env cfg tr))) k"
    by (rule Cons.IH)
  moreover from sup have "cycle_emailSent (monitorFeeds env cfg tr) \<noteq> Some True"
    using cycle_suppressed_not_sent by blast
  ultimately have "Map_has (seenPosts (cleanup (env_nowCleanup env) tr)) k"
    by (simp add: monitorFeeds_not_sent)
  then show ?case by (rule Map_has_cleanup)
qed

lemma cycle_analyzedPosts_enabled:
  assumes "enabled (env_openaiService env)"
    and "p \<in> set (cycle_newPosts (monitorFeeds env cfg tr))"
  shows "analyzePost (env_openaiService env) (withFullContent (env_fetchJson env) p)
           \<in> set (cycle_analyzedPosts (monitorFeeds env cfg tr))"
proof -
  let ?f = "filter_isNewPost (env_getTime env) (env_nowFilter env) (postAgeMinutes cfg) tr
              (getAllPosts (fetchMultipleFeeds (env_parseURL env) (subreddits cfg)))"
  from assms(2) have p: "p \<in> set (fst ?f)"
    by (simp add: monitorFeeds_def Let_def)
  then have ne: "fst ?f \<noteq> []" by auto
  have "cycle_analyzedPosts (monitorFeeds env cfg tr) =
          map (analyzePost (env_openaiService env)) (map (withFullContent (env_fetchJson env)) (fst ?f))"
    using assms(1) ne
    by (simp add: monitorFeeds_def notifyNewPosts_def isEnabled_def analyzeAllPosts_def Let_def)
  with p show ?thesis by simp
qed

text \<open>
  Claim C10. \<open>sendNotification\<close> on \<open>null\<close>, on an empty list, or on a batch whose posts
  all have \<open>shouldReply = false\<close> calls the provider with nothing and returns false. A
  cycle whose analysed batch is all suppressed therefore sends nothing and leaves the
  seen map as the cleanup alone makes it. And after any number of such cycles, a post
  that was new in the first of them is new again, and (with the AI service enabled)
  analysed again, in each later cycle that is offered it within the window.
\<close>

theorem suppressed_batch_is_never_sent_nor_marked:
  "sendNotification mailer None = (False, None)
   \<and> sendNotification mailer (Some []) = (False, None)
   \<and> (list_all (\<lambda>p. shouldReply p = Some False) ps \<longrightarrow> sendNotification mailer (Some ps) = (False, None))
   \<and> (list_all (\<lambda>p. shouldReply p = Some False) (cycle_analyzedPosts (monitorFeeds env cfg tr)) \<longrightarrow>
        cycle_emailBody (monitorFeeds env cfg tr) = None
        \<and> cycle_emailSent (monitorFeeds env cfg tr) \<noteq> Some True
        \<and> seenPosts (cycle_tracker (monitorFeeds env cfg tr)) = seenPosts (cleanup (env_nowCleanup env) tr))
   \<and> (all_suppressed cfg tr (env # envs) \<longrightarrow>
        q \<in> set (cycle_newPosts (monitorFeeds env cfg tr)) \<longrightarrow>
        q \<in> set (cycle_allPosts (monitorFeeds later cfg (monitorFeeds_repeat cfg tr (env # envs)))) \<longrightarrow>
        isWithinTimeWindow (env_getTime later) (env_nowFilter later) (pubDate q) (postAgeMinutes cfg) \<longrightarrow>
        q \<in> set (cycle_newPosts (monitorFeeds later cfg (monitorFeeds_repeat cfg tr (env # envs))))
        \<and> (enabled (env_openaiService later) \<longrightarrow>
             analyzePost (env_openaiService later) (withFullContent (env_fetchJson later) q)
               \<in> set (cycle_analyzedPosts (monitorFeeds later cfg (monitorFeeds_repeat cfg tr (env # envs))))))"
proof -
  have 1: "sendNotification mailer None = (False, None)"
    by (simp add: sendNotification_def)
  have 2: "sendNotification mailer (Some []) = (False, None)"
    by (simp add: sendNotification_def)
  have 3: "list_all (\<lambda>p. shouldReply p = Some False) ps \<longrightarrow> sendNotification mailer (Some ps) = (False, None)"
    by (simp add: sendNotification_all_suppressed)
  have 4: "list_all (\<lambda>p. shouldReply p = Some False) (cycle_analyzedPosts (monitorFeeds env cfg tr)) \<longrightarrow>
        cycle_emailBody (monitorFeeds env cfg tr) = None
        \<and> cycle_emailSent (monitorFeeds env cfg tr) \<noteq> Some True
        \<and> seenPosts (cycle_tracker (monitorFeeds env cfg tr)) = seenPosts (cleanup (env_nowCleanup env) tr)"
    using cycle_suppressed_not_sent[of env cfg tr] monitorFeeds_not_sent[of env cfg tr] by blast
  have 5: "q \<in> set (cycle_newPosts (monitorFeeds later cfg (monitorFeeds_repeat cfg tr (env # envs))))
        \<and> (enabled (env_openaiService later) \<longrightarrow>
             analyzePost (env_openaiService later) (withFullContent (env_fetchJson later) q)
               \<in> set (cycle_analyzedPosts (monitorFeeds later cfg (monitorFeeds_repeat cfg tr (env # envs)))))"
    if sup: "all_suppressed cfg tr (env # envs)"
      and new: "q \<in> set (cycle_newPosts (monitorFeeds env cfg tr))"
      and offered: "q \<in> set (cycle_allPosts (monitorFeeds later cfg (monitorFeeds_repeat cfg tr (env # envs))))"
      and fresh: "isWithinTimeWindow (env_getTime later) (env_nowFilter later) (pubDate q) (postAgeMinutes cfg)"
  proof -
    let ?tr = "monitorFeeds_repeat cfg tr (env # envs)"
    from new have n: "truthy (post_id q)" "truthy (pubDate q)" "\<not> Map_has (seenPosts tr) (post_id q)"
      by (simp_all add: cycle_newPosts_eq isNewPost_true_iff)
    from n(3) sup have "\<not> Map_has (seenPosts ?tr) (post_id q)"
      using Map_has_monitorFeeds_repeat by blast
    with n(1,2) fresh offered
    have again: "q \<in> set (cycle_newPosts (monitorFeeds later cfg ?tr))"
      by (simp add: cycle_newPosts_eq[of later] isNewPost_true_iff)
    then show ?thesis
      using cycle_analyzedPosts_enabled[of later q cfg ?tr] by blast
  qed
  from 1 2 3 4 5 show ?thesis by blast
qed


theorem suppressed_batch_is_never_sent_nor_marked_witness:
  "sendNotification (\<lambda>body. True) (Some [(example_post ''a1'' ''2026-01-01T00:00:00Z'')\<lparr>shouldReply := Some False\<rparr>])
     = (False, None)
   \<and> all_suppressed example_config newPostTracker
        [example_env (example_ai True (Content (Some ''skip'')) (Content (Some ''skip''))) True 1767225720000,
         example_env (example_ai True (Content (Some ''skip'')) (Content (Some ''skip''))) True 1767225780000]
   \<and> cycle_emailBody (monitorFeeds
        (example_env (example_ai True (Content (Some ''skip'')) (Content (Some ''skip''))) True 1767225720000)
        example_config newPostTracker) = None
   \<and> example_post ''a1'' ''2026-01-01T00:00:00Z'' \<in> set (cycle_newPosts (monitorFeeds
        (example_env (example_ai True (Content (Some ''skip'')) (Content (Some ''skip''))) True 1767225840000)
        example_config
        (monitorFeeds_repeat example_config newPostTracker
          [example_env (example_ai True (Content (Some ''skip'')) (Content (Some ''skip''))) True 1767225720000,
           example_env (example_ai True (Content (Some ''skip'')) (Content (Some ''skip''))) True 1767225780000])))"
proof -
  let ?ai = "example_ai True (Content (Some ''skip'')) (Content (Some ''skip''))"
  let ?env = "example_env ?ai True 1767225720000"
  let ?env1 = "example_env ?ai True 1767225780000"
  let ?later = "example_env ?ai True 1767225840000"
  let ?q = "example_post ''a1'' ''2026-01-01T00:00:00Z''"
  have s: "list_all (\<lambda>p. shouldReply p = Some False) [?q\<lparr>shouldReply := Some False\<rparr>]"
    by simp
  have c: "list_all (\<lambda>p. shouldReply p = Some False) (cycle_analyzedPosts (monitorFeeds ?env example_config newPostTracker))"
    by code_simp
  have a: "all_suppressed example_config newPostTracker [?env, ?env1]"
    by code_simp
  have n: "?q \<in> set (cycle_newPosts (monitorFeeds ?env example_config newPostTracker))"
    by code_simp
  have "cycle_allPosts (monitorFeeds ?later example_config (monitorFeeds_repeat example_config newPostTracker [?env, ?env1]))
          = [?q, example_post ''b2'' ''2026-01-01T00:00:00Z'']"
    unfolding cycle_allPosts_eq by code_simp
  then have off: "?q \<in> set (cycle_allPosts (monitorFeeds ?later example_config
                (monitorFeeds_repeat example_config newPostTracker [?env, ?env1])))"
    by simp
  have f: "isWithinTimeWindow (env_getTime ?later) (env_nowFilter ?later) (pubDate ?q) (postAgeMinutes example_config)"
    by code_simp
  note inst = suppressed_batch_is_never_sent_nor_marked[where mailer = "\<lambda>body. True" and ps = "[?q\<lparr>shouldReply := Some False\<rparr>]"
      and env = ?env and envs = "[?env1]" and cfg = example_config and tr = newPostTracker
      and q = ?q and later = ?later]
  from inst s have "sendNotification (\<lambda>body. True) (Some [?q\<lparr>shouldReply := Some False\<rparr>]) = (False, None)"
    by blast
  moreover from inst c have "cycle_emailBody (monitorFeeds ?env example_config newPostTracker) = None"
    by blast
  moreover from inst a n off f have "?q \<in> set (cycle_newPosts (monitorFeeds ?later example_config
        (monitorFeeds_repeat example_config newPostTracker [?env, ?env1])))"
    by blast
  ultimately show ?thesis
    using a by blast
qed

text \<open>
  Claim C2, at a batch of two new posts of which the AI service replies to \<open>a1\<close> and
  skips \<open>b2\<close>, with a mail provider that accepts the email. The email has one entry, for
  \<open>a1\<close>; there is no entry, skipped or other, for \<open>b2\<close>; and both posts are marked
  seen. The comment at the call in \<open>index.js\<close> says the email is sent for all posts,
  including the ones the AI decided to skip, and \<open>formatEmailBody\<close> has a branch that
  renders a skipped post; the filter in \<open>sendNotification\<close> keeps that branch from
  ever running.
\<close>

theorem suppressed_post_is_dropped_from_email:
  "map post_id (cycle_newPosts (monitorFeeds
      (example_env (example_ai True (Content (Some ''reply'')) (Content (Some ''skip''))) True 1767225720000)
      example_config newPostTracker)) = [Some ''a1'', Some ''b2'']
   \<and> map shouldReply (cycle_analyzedPosts (monitorFeeds
      (example_env (example_ai True (Content (Some ''reply'')) (Content (Some ''skip''))) True 1767225720000)
      example_config newPostTracker)) = [Some True, Some False]
   \<and> cycle_emailSent (monitorFeeds
      (example_env (example_ai True (Content (Some ''reply'')) (Content (Some ''skip''))) True 1767225720000)
      example_config newPostTracker) = Some True
   \<and> cycle_emailBody (monitorFeeds
      (example_env (example_ai True (Content (Some ''reply'')) (Content (Some ''skip''))) True 1767225720000)
      example_config newPostTracker)
      = Some [\<lparr>entry_number = 1, entry_subreddit = ''musebox'', entry_title = Some ''Post a1'',
               entry_link = Some ''https://www.reddit.com/r/musebox/a1'',
               entry_note = ReplyNote (Some ''Nice track!'')\<rparr>]
   \<and> map fst (seenPosts (cycle_tracker (monitorFeeds
      (example_env (example_ai True (Content (Some ''reply'')) (Content (Some ''skip''))) True 1767225720000)
      example_config newPostTracker))) = [Some ''a1'', Some ''b2'']"
  by code_simp

text \<open>
  Claim C3, at a batch of two new posts where the annotation of \<open>a1\<close> fails and \<open>b2\<close>
  gets a reply. \<open>generateReply\<close> turns each failure (the API call throws, the response
  is empty, the response does not parse) into \<open>shouldReply = false\<close> with a reason; the
  filter in \<open>sendNotification\<close> then removes the post, so the email has an entry for
  \<open>b2\<close> only. When the annotation of every post fails (an invalid API key), no email
  is sent at all and \<open>sendNotification\<close> returns false.
\<close>

theorem failed_annotation_excludes_post_from_email:
  "map post_id (cycle_newPosts (monitorFeeds
      (example_env (example_ai True (ApiThrows (Some 429)) (Content (Some ''reply''))) True 1767225720000)
      example_config newPostTracker)) = [Some ''a1'', Some ''b2'']
   \<and> map skipReason (cycle_analyzedPosts (monitorFeeds
      (example_env (example_ai True (ApiThrows (Some 429)) (Content (Some ''reply''))) True 1767225720000)
      example_config newPostTracker)) = [Some ''OpenAI API error'', None]
   \<and> map_option (map entry_title) (cycle_emailBody (monitorFeeds
      (example_env (example_ai True (ApiThrows (Some 429)) (Content (Some ''reply''))) True 1767225720000)
      example_config newPostTracker)) = Some [Some ''Post b2'']
   \<and> map_option (map entry_title) (cycle_emailBody (monitorFeeds
      (example_env (example_ai True (Content None) (Content (Some ''reply''))) True 1767225720000)
      example_config newPostTracker)) = Some [Some ''Post b2'']
   \<and> map_option (map entry_title) (cycle_emailBody (monitorFeeds
      (example_env (example_ai True (Content (Some ''not json'')) (Content (Some ''reply''))) True 1767225720000)
      example_config newPostTracker)) = Some [Some ''Post b2'']
   \<and> cycle_emailBody (monitorFeeds
      (example_env (example_ai True (ApiThrows (Some 401)) (ApiThrows (Some 401))) True 1767225720000)
      example_config newPostTracker) = None
   \<and> cycle_emailSent (monitorFeeds
      (example_env (example_ai True (ApiThrows (Some 401)) (ApiThrows (Some 401))) True 1767225720000)
      example_config newPostTracker) = Some False"
  by code_simp

section \<open>Properties of the configuration\<close>

lemma requireEnv_Inr: "requireEnv env v = Inr x \<longleftrightarrow> env v = Some x \<and> x \<noteq> []"
  by (auto simp: requireEnv_def split: option.splits)

lemma requireEnv_Inl: "requireEnv env v = Inl m \<Longrightarrow> m \<noteq> []"
  by (auto simp: requireEnv_def split: option.splits if_splits)

lemma loadConfig_Inl: "loadConfig env pf = Inl m \<Longrightarrow> m \<noteq> []"
  by (simp add: loadConfig_def Let_def split: sum.splits if_splits)
     (auto dest: requireEnv_Inl)

lemma loadConfig_Inr:
  assumes "loadConfig env pf = Inr cfg"
  shows "env ''MAILERSEND_API_TOKEN'' = Some (apiToken cfg) \<and> apiToken cfg \<noteq> []
    \<and> env ''FROM_EMAIL'' = Some (fromEmail cfg) \<and> fromEmail cfg \<noteq> []
    \<and> env ''TO_EMAIL'' = Some (toEmail cfg) \<and> toEmail cfg \<noteq> []
    \<and> (\<exists>s. env ''SUBREDDITS'' = Some s \<and> s \<noteq> []
          \<and> subreddits cfg = filter (\<lambda>x. length x > 0) (map trim (split CHR '','' s)))
    \<and> checkIntervalMinutes cfg = parseInt (getEnv env ''CHECK_INTERVAL_MINUTES'' ''5'')
    \<and> postAgeMinutes cfg = parseInt (getEnv env ''POST_AGE_MINUTES'' ''5'')
    \<and> isValidEmail (fromEmail cfg) \<and> isValidEmail (toEmail cfg) \<and> subreddits cfg \<noteq> []
    \<and> \<not> num_lt (checkIntervalMinutes cfg) (Num 1) \<and> \<not> num_lt (postAgeMinutes cfg) (Num 1)"
proof -
  from assms obtain t f r s where
    req: "requireEnv env ''MAILERSEND_API_TOKEN'' = Inr t" "requireEnv env ''FROM_EMAIL'' = Inr f"
         "requireEnv env ''TO_EMAIL'' = Inr r" "requireEnv env ''SUBREDDITS'' = Inr s"
    by (simp add: loadConfig_def split: sum.splits)
  from assms show ?thesis
    unfolding loadConfig_def req sum.case Let_def
    using req by (auto simp: requireEnv_Inr filter_map split: if_splits)
qed

text \<open>
  Claim C9. When a required variable is unset or empty, or the sender or the recipient
  address does not match the email pattern, or the list of subreddits is empty after
  trimming, or the check interval or the post age parses to a number below 1, loading
  the configuration throws an error with a message, and the process ends at the import:
  \<open>start()\<close> is never called.
\<close>

theorem loadConfig_aborts_startup_on_invalid_configuration:
  assumes "(\<exists>v \<in> {''MAILERSEND_API_TOKEN'', ''FROM_EMAIL'', ''TO_EMAIL'', ''SUBREDDITS''}.
              env v = None \<or> env v = Some [])
           \<or> (\<exists>a. env ''FROM_EMAIL'' = Some a \<and> \<not> isValidEmail a)
           \<or> (\<exists>a. env ''TO_EMAIL'' = Some a \<and> \<not> isValidEmail a)
           \<or> (\<exists>s. env ''SUBREDDITS'' = Some s
                  \<and> filter (\<lambda>x. length x > 0) (map trim (split CHR '','' s)) = [])
           \<or> num_lt (parseInt (getEnv env ''CHECK_INTERVAL_MINUTES'' ''5'')) (Num 1)
           \<or> num_lt (parseInt (getEnv env ''POST_AGE_MINUTES'' ''5'')) (Num 1)"
  shows "\<exists>message. message \<noteq> [] \<and> loadConfig env promptFile = Inl message
                   \<and> startProcess env promptFile = ExitedAtImport message"
proof (cases "loadConfig env promptFile")
  case (Inl message)
  then show ?thesis
    by (simp add: startProcess_def loadConfig_Inl)
next
  case (Inr cfg)
  note ok = loadConfig_Inr[OF Inr]
  from assms ok have False
    by (elim disjE bexE exE conjE) auto
  then show ?thesis ..
qed


theorem loadConfig_aborts_startup_on_invalid_configuration_witness:
  "(example_environ(''TO_EMAIL'' := None)) ''TO_EMAIL'' = None
   \<and> startProcess (example_environ(''TO_EMAIL'' := None)) None
        = ExitedAtImport ''Missing required environment variable: TO_EMAIL''
   \<and> \<not> isValidEmail ''m.d.io''
   \<and> startProcess (example_environ(''FROM_EMAIL'' \<mapsto> ''m.d.io'')) None
        = ExitedAtImport ''Invalid FROM_EMAIL: m.d.io''
   \<and> startProcess (example_environ(''SUBREDDITS'' \<mapsto> '' , '')) None
        = ExitedAtImport ''SUBREDDITS must contain at least one subreddit''
   \<and> startProcess (example_environ(''CHECK_INTERVAL_MINUTES'' \<mapsto> ''0'')) None
        = ExitedAtImport ''CHECK_INTERVAL_MINUTES must be at least 1''
   \<and> startProcess (example_environ(''POST_AGE_MINUTES'' \<mapsto> ''-3'')) None
        = ExitedAtImport ''POST_AGE_MINUTES must be at least 1''
   \<and> startProcess example_environ None = Started example_config"
proof -
  let ?e1 = "example_environ(''TO_EMAIL'' := None)"
  have h: "?e1 ''TO_EMAIL'' = None"
    by simp
  have ex: "\<exists>message. message \<noteq> [] \<and> loadConfig ?e1 None = Inl message
                   \<and> startProcess ?e1 None = ExitedAtImport message"
    by (rule loadConfig_aborts_startup_on_invalid_configuration, rule disjI1, rule bexI[of _ "''TO_EMAIL''"]) simp_all
  have l: "loadConfig ?e1 None = Inl ''Missing required environment variable: TO_EMAIL''"
    by code_simp
  from ex have 1: "startProcess ?e1 None = ExitedAtImport ''Missing required environment variable: TO_EMAIL''"
    unfolding l by (elim exE conjE) simp
  have 2: "\<not> isValidEmail ''m.d.io''"
    by code_simp
  have 3: "startProcess (example_environ(''FROM_EMAIL'' \<mapsto> ''m.d.io'')) None
        = ExitedAtImport ''Invalid FROM_EMAIL: m.d.io''"
    by code_simp
  have 4: "startProcess (example_environ(''SUBREDDITS'' \<mapsto> '' , '')) None
        = ExitedAtImport ''SUBREDDITS must contain at least one subreddit''"
    by code_simp
  have 5: "startProcess (example_environ(''CHECK_INTERVAL_MINUTES'' \<mapsto> ''0'')) None
        = ExitedAtImport ''CHECK_INTERVAL_MINUTES must be at least 1''"
    by code_simp
  have 6: "startProcess (example_environ(''POST_AGE_MINUTES'' \<mapsto> ''-3'')) None
        = ExitedAtImport ''POST_AGE_MINUTES must be at least 1''"
    by code_simp
  have 7: "startProcess example_environ None = Started example_config"
    by code_simp
  from h 1 2 3 4 5 6 7 show ?thesis
    by blast
qed

end
